theory Spec2Isabelle
  imports Main
begin

section \<open>Time\<close>

text \<open>
  A Python \<^verbatim>\<open>datetime\<close> is modelled as a number of seconds on the time axis, a
  \<^verbatim>\<open>timedelta\<close> as a difference of two of them, and \<^verbatim>\<open>.date()\<close> as the number of
  the day the instant falls in.
\<close>

type_synonym datetime = int

definition date :: "datetime \<Rightarrow> int" where
  "date t = t div 86400"

definition hours :: "int \<Rightarrow> int" where
  "hours h = h * 3600"

definition days :: "int \<Rightarrow> int" where
  "days d = d * 86400"

section \<open>The Redis cache service (cache\_service.py)\<close>

text \<open>
  What a \<^verbatim>\<open>redis_client.get(key)\<close> followed by the decoding of its payload
  (\<^verbatim>\<open>json.loads\<close>, the subscripts, \<^verbatim>\<open>datetime.fromisoformat\<close>) comes to:
  an exception somewhere on the way, no (or an empty) value under the key, or the decoded
  entry. The three key spaces \<^verbatim>\<open>skip:\<close>, \<^verbatim>\<open>search:\<close> and \<^verbatim>\<open>quota:\<close> are kept
  apart by their types.
\<close>

datatype 'a redis_reply = Raises | Absent | Reply 'a

record skip_data =
  last_attempt :: datetime
  new_videos :: int

text \<open>
  The dictionary stored under \<^verbatim>\<open>results\<close> of a cached search: the list under its key
  \<^verbatim>\<open>items\<close> when it has one, and whether it has any other key. Python takes the
  dictionary for true when it is not empty.
\<close>

record cached_results =
  cr_items :: "string list option"
  cr_other_keys :: bool

definition truthy :: "cached_results \<Rightarrow> bool" where
  "truthy r = (cr_items r \<noteq> None \<or> cr_other_keys r)"

record search_data =
  cached_at :: datetime
  results :: cached_results

record redis =
  skip_key :: "string \<Rightarrow> skip_data redis_reply"
  search_key :: "string \<Rightarrow> search_data redis_reply"
  quota_key :: "nat \<Rightarrow> int \<Rightarrow> bool redis_reply"

record CacheService =
  redis_client :: "redis option"

definition should_skip_query :: "CacheService \<Rightarrow> datetime \<Rightarrow> string \<Rightarrow> int \<Rightarrow> bool" where
  "should_skip_query c utcnow query hours_threshold =
     (case redis_client c of
        None \<Rightarrow> False
      | Some r \<Rightarrow>
          (case skip_key r query of
             Raises \<Rightarrow> False
           | Absent \<Rightarrow> False
           | Reply data \<Rightarrow>
               if utcnow - last_attempt data < hours hours_threshold \<and> new_videos data = 0
               then True else False))"

definition get_cached_search_results :: "CacheService \<Rightarrow> datetime \<Rightarrow> string \<Rightarrow> cached_results option" where
  "get_cached_search_results c utcnow query =
     (case redis_client c of
        None \<Rightarrow> None
      | Some r \<Rightarrow>
          (case search_key r query of
             Raises \<Rightarrow> None
           | Absent \<Rightarrow> None
           | Reply data \<Rightarrow>
               if utcnow - cached_at data < hours 2 then Some (results data) else None))"

text \<open>
  \<^verbatim>\<open>get_quota_usage(i).get('quota_exhausted', False)\<close>: the flag of the mirror entry of
  credential \<open>i\<close> for the current UTC day, \<open>False\<close> when there is none.
\<close>

definition get_quota_usage :: "CacheService \<Rightarrow> datetime \<Rightarrow> nat \<Rightarrow> bool" where
  "get_quota_usage c utcnow api_key_index =
     (case redis_client c of
        None \<Rightarrow> False
      | Some r \<Rightarrow>
          (case quota_key r api_key_index (date utcnow) of
             Raises \<Rightarrow> False
           | Absent \<Rightarrow> False
           | Reply quota_exhausted \<Rightarrow> quota_exhausted))"

section \<open>The tables (models.py)\<close>

text \<open>
  The nine values that the search loop reads from one search result, and that a
  \<^verbatim>\<open>Video\<close> row stores under the same names. A search result is represented by
  these values themselves (the defaults of the \<^verbatim>\<open>.get\<close> calls applied,
  \<^verbatim>\<open>publishedAt\<close> parsed).
\<close>

record snippet =
  video_id :: string
  title :: string
  description :: string
  published_at :: datetime
  thumbnail_default :: string
  thumbnail_medium :: string
  thumbnail_high :: string
  channel_id :: string
  channel_title :: string

text \<open>
  The dictionary \<^verbatim>\<open>video_data\<close>: the nine keys above, and the two keys
  \<^verbatim>\<open>duration\<close> and \<^verbatim>\<open>view_count\<close> once \<^verbatim>\<open>video.update(details_map[...])\<close>
  has run for it, which happens only when the detail response lists the video.
\<close>

record video_data = snippet +
  details :: "(string \<times> int) option"

record Video = snippet +
  id_col :: nat
  duration :: "string option"
  view_count :: "int option"
  created_at :: datetime
  updated_at :: datetime

text \<open>
  The SHA-256 digest of a credential is represented symbolically by the credential under
  a constructor; collisions are not modelled. Of the two auxiliary tables only the
  columns that the service reads or writes are kept.
\<close>

datatype digest = SHA256 string

record APIKeyUsage =
  api_key_hash :: digest
  quota_used :: int
  last_reset :: "datetime option"
  is_exhausted :: bool

record SearchCache =
  sc_query :: string
  last_fetched :: datetime
  total_results :: nat
  next_page_token :: "string option"

record database =
  videos :: "Video list"
  api_key_usage :: "APIKeyUsage list"
  search_cache :: "SearchCache list"

text \<open>\<^verbatim>\<open>.filter_by(...).first()\<close> is \<^const>\<open>find\<close>; an attribute assignment on the row it
  returns changes the first row that satisfies the filter.\<close>

fun update_first :: "('a \<Rightarrow> bool) \<Rightarrow> ('a \<Rightarrow> 'a) \<Rightarrow> 'a list \<Rightarrow> 'a list" where
  "update_first P f [] = []"
| "update_first P f (x # xs) = (if P x then f x # xs else x # update_first P f xs)"

section \<open>The remote API and the environment\<close>

text \<open>
  A Python exception: an \<^verbatim>\<open>HttpError\<close> with \<^verbatim>\<open>e.resp.status\<close> and the text
  \<^verbatim>\<open>str(e)\<close>, or any other exception with its text.
\<close>

datatype exn = HttpError nat string | Exception string

record search_request =
  req_q :: string
  req_publishedAfter :: datetime
  req_maxResults :: int
  req_pageToken :: "string option"

record search_response =
  sr_items :: "snippet list"
  sr_nextPageToken :: "string option"
  sr_totalResults :: int

record video_detail =
  vd_id :: string
  vd_duration :: string
  vd_viewCount :: int

text \<open>The remote calls a fetch issues, each with the developer key of the client that
  issued it.\<close>

datatype remote_call = SearchList string search_request | VideosList string "string list"

text \<open>
  Everything outside the process, as one fetch cycle finds it: the two clocks, whether
  \<^verbatim>\<open>build\<close> succeeds for a developer key, what \<^verbatim>\<open>.execute()\<close> of the two remote
  calls comes to (an \<^verbatim>\<open>HttpError\<close>, any other exception such as a timeout or a
  connection error, or the response), the cache service, the rows that the storage engine
  rejects when the session is flushed, with the text of the exception it raises for them,
  and the queries for which the bookkeeping of the fetch (the lookup of the
  \<^verbatim>\<open>SearchCache\<close> row and the second commit) raises, with the text of that exception.
\<close>

record world =
  clock_utcnow :: datetime
  clock_now :: datetime
  build_ok :: "string \<Rightarrow> bool"
  search_list_execute :: "string \<Rightarrow> search_request \<Rightarrow> exn + search_response"
  videos_list_execute :: "string \<Rightarrow> string list \<Rightarrow> exn + video_detail list"
  cache_service :: CacheService
  flush_error :: "video_data \<Rightarrow> string option"
  search_cache_error :: "string \<Rightarrow> string option"

section \<open>The ingestion client (youtube\_service.py)\<close>

text \<open>
  The service object (\<open>api_keys\<close>, \<open>current_key_index\<close>, and \<open>youtube\<close>: the developer
  key the client was built with, \<open>None\<close> when no client was built), the database as the
  session sees it and as it is committed, and the remote calls issued so far.
\<close>

record state =
  api_keys :: "string list"
  current_key_index :: nat
  youtube :: "string option"
  session :: database
  committed :: database
  calls :: "remote_call list"

definition commit :: "state \<Rightarrow> state" where
  "commit s = s\<lparr>committed := session s\<rparr>"

definition initialize_youtube_client :: "world \<Rightarrow> state \<Rightarrow> state" where
  "initialize_youtube_client w s =
     (if api_keys s \<noteq> [] \<and> current_key_index s < length (api_keys s) then
        (if build_ok w (api_keys s ! current_key_index s)
         then s\<lparr>youtube := Some (api_keys s ! current_key_index s)\<rparr>
         else s)
      else s)"

definition switch_api_key :: "world \<Rightarrow> state \<Rightarrow> bool \<times> state" where
  "switch_api_key w s =
     (let s1 = s\<lparr>current_key_index := current_key_index s + 1\<rparr> in
      if current_key_index s1 < length (api_keys s1)
      then (True, initialize_youtube_client w s1)
      else (False, s1))"

text \<open>
  \<^verbatim>\<open>__init__\<close>: the credentials are the non-empty ones among the three environment
  variables, in their order, and the client is built for the first of them.
\<close>

definition new_service :: "world \<Rightarrow> string list \<Rightarrow> database \<Rightarrow> state" where
  "new_service w env_keys db =
     initialize_youtube_client w
       \<lparr>api_keys = filter (\<lambda>key. key \<noteq> []) env_keys, current_key_index = 0, youtube = None,
        session = db, committed = db, calls = []\<rparr>"

text \<open>The three assignments of \<^verbatim>\<open>_track_api_usage\<close> on the ledger row it found or made.
  The two readings of the clock in it are taken as one instant.\<close>

definition track_row :: "datetime \<Rightarrow> int \<Rightarrow> APIKeyUsage \<Rightarrow> APIKeyUsage" where
  "track_row now quota_cost usage =
     (let u1 = (if (case last_reset usage of None \<Rightarrow> True | Some t \<Rightarrow> date t < date now)
                then usage\<lparr>quota_used := 0, is_exhausted := False, last_reset := Some now\<rparr>
                else usage);
          u2 = u1\<lparr>quota_used := quota_used u1 + quota_cost\<rparr>
      in if quota_used u2 \<ge> 9500 then u2\<lparr>is_exhausted := True\<rparr> else u2)"

definition track_api_usage :: "world \<Rightarrow> state \<Rightarrow> int \<Rightarrow> state" where
  "track_api_usage w s quota_cost =
     (if api_keys s = [] \<or> current_key_index s \<ge> length (api_keys s) then s
      else
        let h = SHA256 (api_keys s ! current_key_index s);
            tbl = api_key_usage (session s);
            tbl' = (case find (\<lambda>u. api_key_hash u = h) tbl of
                      None \<Rightarrow> tbl @ [track_row (clock_now w) quota_cost
                                \<lparr>api_key_hash = h, quota_used = 0, last_reset = None,
                                 is_exhausted = False\<rparr>]
                    | Some _ \<Rightarrow> update_first (\<lambda>u. api_key_hash u = h)
                                (track_row (clock_now w) quota_cost) tbl)
        in commit (s\<lparr>session := (session s)\<lparr>api_key_usage := tbl'\<rparr>\<rparr>))"

text \<open>\<^verbatim>\<open>Video(**video_data)\<close>, with the column defaults filled in when the row is
  flushed, and the \<^verbatim>\<open>setattr\<close> loop over the keys of \<^verbatim>\<open>video_data\<close> other than
  \<^verbatim>\<open>video_id\<close>.\<close>

definition next_id :: "Video list \<Rightarrow> nat" where
  "next_id tbl = Suc (fold max (map id_col tbl) 0)"

definition new_video :: "datetime \<Rightarrow> nat \<Rightarrow> video_data \<Rightarrow> Video" where
  "new_video now i d =
     \<lparr>video_id = video_id d, title = title d, description = description d,
      published_at = published_at d, thumbnail_default = thumbnail_default d,
      thumbnail_medium = thumbnail_medium d, thumbnail_high = thumbnail_high d,
      channel_id = channel_id d, channel_title = channel_title d,
      id_col = i, duration = map_option fst (details d),
      view_count = map_option snd (details d), created_at = now, updated_at = now\<rparr>"

definition overwrite :: "datetime \<Rightarrow> video_data \<Rightarrow> Video \<Rightarrow> Video" where
  "overwrite now d v =
     v\<lparr>title := title d, description := description d, published_at := published_at d,
       thumbnail_default := thumbnail_default d, thumbnail_medium := thumbnail_medium d,
       thumbnail_high := thumbnail_high d, channel_id := channel_id d,
       channel_title := channel_title d,
       duration := (case details d of None \<Rightarrow> duration v | Some x \<Rightarrow> Some (fst x)),
       view_count := (case details d of None \<Rightarrow> view_count v | Some x \<Rightarrow> Some (snd x)),
       updated_at := now\<rparr>"

text \<open>One pass of the storing loop: the table afterwards, and whether a row was added.\<close>

definition upsert :: "datetime \<Rightarrow> Video list \<Rightarrow> video_data \<Rightarrow> Video list \<times> bool" where
  "upsert now tbl d =
     (case find (\<lambda>v. video_id v = video_id d) tbl of
        None \<Rightarrow> (tbl @ [new_video now (next_id tbl) d], True)
      | Some existing_video \<Rightarrow>
          (update_first (\<lambda>v. video_id v = video_id d) (overwrite now d) tbl, False))"

text \<open>
  The storing loop with its counter. The storage engine may reject a row when the session
  is flushed (by the next query of the loop or by the commit), which raises out of the
  loop: \<open>rejects\<close> gives the text of that exception.
\<close>

fun store_videos ::
  "datetime \<Rightarrow> (video_data \<Rightarrow> string option) \<Rightarrow> Video list \<Rightarrow> video_data list \<Rightarrow> nat \<Rightarrow>
   exn + (Video list \<times> nat)" where
  "store_videos now rejects tbl [] stored_count = Inr (tbl, stored_count)"
| "store_videos now rejects tbl (d # ds) stored_count =
     (case rejects d of
        Some text \<Rightarrow> Inl (Exception text)
      | None \<Rightarrow>
          (case upsert now tbl d of
             (tbl', created) \<Rightarrow>
               store_videos now rejects tbl' ds
                 (if created then stored_count + 1 else stored_count)))"

text \<open>The bookkeeping row of the query and its commit; the lookup and the commit can
  raise, and then nothing of it is committed.\<close>

definition update_search_cache ::
  "world \<Rightarrow> state \<Rightarrow> string \<Rightarrow> nat \<Rightarrow> string option \<Rightarrow> exn + state" where
  "update_search_cache w s q n token =
     (case search_cache_error w q of
        Some text \<Rightarrow> Inl (Exception text)
      | None \<Rightarrow>
          let tbl = search_cache (session s);
              tbl' = (case find (\<lambda>c. sc_query c = q) tbl of
                        None \<Rightarrow> tbl @ [\<lparr>sc_query = q, last_fetched = clock_utcnow w,
                                        total_results = n, next_page_token = token\<rparr>]
                      | Some _ \<Rightarrow> update_first (\<lambda>c. sc_query c = q)
                           (\<lambda>c. c\<lparr>last_fetched := clock_utcnow w, total_results := n,
                                  next_page_token := token\<rparr>) tbl)
          in Inr (commit (s\<lparr>session := (session s)\<lparr>search_cache := tbl'\<rparr>\<rparr>)))"

text \<open>The dictionary a fetch returns; a key that a return statement leaves out is
  \<open>None\<close>.\<close>

datatype item = Fetched video_data | Cached string

record fetch_result =
  items :: "item list"
  nextPageToken :: "string option"
  cached :: "bool option"
  skipped :: "bool option"
  totalResults :: "int option"
  stored_count :: "nat option"

definition skipped_result :: fetch_result where
  "skipped_result = \<lparr>items = [], nextPageToken = None, cached = Some True,
     skipped = Some True, totalResults = None, stored_count = None\<rparr>"

definition cached_result :: "cached_results \<Rightarrow> fetch_result" where
  "cached_result r = \<lparr>items = (case cr_items r of None \<Rightarrow> [] | Some xs \<Rightarrow> map Cached xs),
     nextPageToken = None, cached = Some True, skipped = None, totalResults = None,
     stored_count = None\<rparr>"

text \<open>The first-page checks of \<^verbatim>\<open>fetch_videos\<close>: the result they return, if any.\<close>

definition first_page :: "world \<Rightarrow> string \<Rightarrow> string option \<Rightarrow> fetch_result option" where
  "first_page w q page_token =
     (if page_token = None \<or> page_token = Some [] then
        (if should_skip_query (cache_service w) (clock_utcnow w) q 6 then Some skipped_result
         else
           (case get_cached_search_results (cache_service w) (clock_utcnow w) q of
              None \<Rightarrow> None
            | Some r \<Rightarrow> if truthy r then Some (cached_result r) else None))
      else None)"

definition to_video_data :: "snippet \<Rightarrow> video_data" where
  "to_video_data r =
     \<lparr>video_id = video_id r, title = title r, description = description r,
      published_at = published_at r, thumbnail_default = thumbnail_default r,
      thumbnail_medium = thumbnail_medium r, thumbnail_high = thumbnail_high r,
      channel_id = channel_id r, channel_title = channel_title r, details = None\<rparr>"

text \<open>The detail call for the collected ids, its charge, and the merge of the details
  into the videos. Of two details with one id the later one stays in \<^verbatim>\<open>details_map\<close>.\<close>

definition detail_step ::
  "world \<Rightarrow> state \<Rightarrow> string \<Rightarrow> video_data list \<Rightarrow> string list \<Rightarrow> (exn + video_data list) \<times> state" where
  "detail_step w s key vs video_ids =
     (if video_ids = [] then (Inr vs, s)
      else
        let s1 = s\<lparr>calls := calls s @ [VideosList key video_ids]\<rparr> in
        (case videos_list_execute w key video_ids of
           Inl e \<Rightarrow> (Inl e, s1)
         | Inr video_details \<Rightarrow>
             let s2 = track_api_usage w s1 1;
                 details_map = map_of (rev (map (\<lambda>d. (vd_id d, (vd_duration d, vd_viewCount d)))
                                  video_details))
             in (Inr (map (\<lambda>v. case details_map (video_id v) of
                                  None \<Rightarrow> v
                                | Some x \<Rightarrow> v\<lparr>details := Some x\<rparr>) vs), s2)))"

text \<open>
  Storing, the commit, the bookkeeping of the query, and the result. Nothing in
  \<^verbatim>\<open>fetch_videos\<close> rolls back; when a flush or a commit fails the engine has rolled the
  open transaction back and the pending rows go with the session at the end of the
  application context, so the session is left as the committed database. When the
  bookkeeping raises, the videos are committed already.
\<close>

definition persist ::
  "world \<Rightarrow> state \<Rightarrow> string \<Rightarrow> search_response \<Rightarrow> video_data list \<Rightarrow> (exn + fetch_result) \<times> state" where
  "persist w s q search_response vs =
     (case store_videos (clock_utcnow w) (flush_error w) (videos (session s)) vs 0 of
        Inl e \<Rightarrow> (Inl e, s\<lparr>session := committed s\<rparr>)
      | Inr (tbl, n) \<Rightarrow>
          let s1 = commit (s\<lparr>session := (session s)\<lparr>videos := tbl\<rparr>\<rparr>) in
          (case update_search_cache w s1 q (length vs) (sr_nextPageToken search_response) of
             Inl e \<Rightarrow> (Inl e, s1)
           | Inr s2 \<Rightarrow>
               (Inr \<lparr>items = map Fetched vs,
                     nextPageToken = sr_nextPageToken search_response,
                     cached = None, skipped = None,
                     totalResults = Some (sr_totalResults search_response),
                     stored_count = Some n\<rparr>, s2)))"

text \<open>
  From the search call to the result. Both calls go through \<^verbatim>\<open>self.youtube\<close>; without
  a client the attribute access raises, which the guard of \<^verbatim>\<open>fetch_videos\<close> excludes.
\<close>

definition remote_fetch ::
  "world \<Rightarrow> state \<Rightarrow> string \<Rightarrow> int \<Rightarrow> string option \<Rightarrow> (exn + fetch_result) \<times> state" where
  "remote_fetch w s q max_results page_token =
     (case youtube s of
        None \<Rightarrow> (Inl (Exception ''AttributeError''), s)
      | Some key \<Rightarrow>
          let req = \<lparr>req_q = q, req_publishedAfter = clock_utcnow w - days 7,
                     req_maxResults = min max_results 50, req_pageToken = page_token\<rparr>;
              s1 = s\<lparr>calls := calls s @ [SearchList key req]\<rparr>
          in
          (case search_list_execute w key req of
             Inl e \<Rightarrow> (Inl e, s1)
           | Inr search_response \<Rightarrow>
               let s2 = track_api_usage w s1 100;
                   vs = map to_video_data (sr_items search_response);
                   video_ids = map video_id (sr_items search_response)
               in
               (case detail_step w s2 key vs video_ids of
                  (Inl e, s3) \<Rightarrow> (Inl e, s3)
                | (Inr vs', s3) \<Rightarrow> persist w s3 q search_response vs')))"

text \<open>The body of the \<^verbatim>\<open>try\<close> statement.\<close>

definition fetch_body ::
  "world \<Rightarrow> state \<Rightarrow> string \<Rightarrow> int \<Rightarrow> string option \<Rightarrow> (exn + fetch_result) \<times> state" where
  "fetch_body w s q max_results page_token =
     (case first_page w q page_token of
        Some r \<Rightarrow> (Inr r, s)
      | None \<Rightarrow>
          if get_quota_usage (cache_service w) (clock_utcnow w) (current_key_index s) then
            (case switch_api_key w s of
               (True, s1) \<Rightarrow> remote_fetch w s1 q max_results page_token
             | (False, s1) \<Rightarrow> (Inl (Exception ''All API keys exhausted''), s1))
          else remote_fetch w s q max_results page_token)"

text \<open>\<^verbatim>\<open>needle in haystack\<close> on strings.\<close>

fun is_prefix :: "string \<Rightarrow> string \<Rightarrow> bool" where
  "is_prefix [] ys = True"
| "is_prefix (x # xs) [] = False"
| "is_prefix (x # xs) (y # ys) = (x = y \<and> is_prefix xs ys)"

fun contains :: "string \<Rightarrow> string \<Rightarrow> bool" where
  "contains needle [] = (needle = [])"
| "contains needle (c # cs) = (is_prefix needle (c # cs) \<or> contains needle cs)"

text \<open>
  The credentials and the index after each step of the body, needed to see that the
  retry of \<^verbatim>\<open>fetch_videos\<close> comes to an end.
\<close>

lemma track_api_usage_frame:
  "api_keys (track_api_usage w s c) = api_keys s"
  "current_key_index (track_api_usage w s c) = current_key_index s"
  "youtube (track_api_usage w s c) = youtube s"
  "calls (track_api_usage w s c) = calls s"
  by (simp_all add: track_api_usage_def commit_def Let_def)

lemma update_search_cache_frame:
  "update_search_cache w s q n t = Inr s' \<Longrightarrow>
     api_keys s' = api_keys s \<and> current_key_index s' = current_key_index s \<and>
     youtube s' = youtube s \<and> calls s' = calls s"
  by (auto simp add: update_search_cache_def commit_def Let_def split: option.splits)

lemma detail_step_pool:
  "detail_step w s k vs ids = (r, s') \<Longrightarrow>
     api_keys s' = api_keys s \<and> current_key_index s' = current_key_index s \<and>
     youtube s' = youtube s"
  by (auto simp add: detail_step_def Let_def track_api_usage_frame
      split: sum.splits prod.splits if_splits)

lemma persist_pool:
  "persist w s q r vs = (res, s') \<Longrightarrow>
     api_keys s' = api_keys s \<and> current_key_index s' = current_key_index s \<and>
     youtube s' = youtube s"
  by (auto simp add: persist_def Let_def commit_def
      split: sum.splits prod.splits dest!: update_search_cache_frame)

lemma remote_fetch_pool:
  "remote_fetch w s q m p = (res, s') \<Longrightarrow>
     api_keys s' = api_keys s \<and> current_key_index s' = current_key_index s \<and>
     youtube s' = youtube s"
  by (auto simp add: remote_fetch_def Let_def track_api_usage_frame
      split: sum.splits prod.splits option.splits
      dest!: detail_step_pool persist_pool)

lemma switch_api_key_pool:
  "switch_api_key w s = (ok, s') \<Longrightarrow>
     api_keys s' = api_keys s \<and> current_key_index s' = Suc (current_key_index s) \<and>
     ok = (Suc (current_key_index s) < length (api_keys s))"
  by (auto simp add: switch_api_key_def initialize_youtube_client_def Let_def split: if_splits)

lemma fetch_body_pool:
  "fetch_body w s q m p = (res, s') \<Longrightarrow>
     api_keys s' = api_keys s \<and> current_key_index s \<le> current_key_index s'"
  by (auto simp add: fetch_body_def split: option.splits if_splits prod.splits bool.splits
      dest!: remote_fetch_pool switch_api_key_pool)

text \<open>
  \<^verbatim>\<open>fetch_videos\<close>: the guard before the \<^verbatim>\<open>try\<close>, the body, and the two handlers.
  An exception raised inside the first handler is not caught by the second one, which
  re-raises what it catches.
\<close>

function fetch_videos ::
  "world \<Rightarrow> state \<Rightarrow> string \<Rightarrow> int \<Rightarrow> string option \<Rightarrow> (exn + fetch_result) \<times> state" where
  "fetch_videos w s q max_results page_token =
     (if youtube s = None then (Inl (Exception ''YouTube API client not initialized''), s)
      else
        (case fetch_body w s q max_results page_token of
           (Inr r, s1) \<Rightarrow> (Inr r, s1)
         | (Inl (HttpError status text), s1) \<Rightarrow>
             if status = 403 \<and> contains ''quotaExceeded'' text then
               (case switch_api_key w s1 of
                  (True, s2) \<Rightarrow> fetch_videos w s2 q max_results page_token
                | (False, s2) \<Rightarrow> (Inl (Exception ''All API keys exhausted''), s2))
             else (Inl (Exception (''YouTube API error: '' @ text)), s1)
         | (Inl (Exception text), s1) \<Rightarrow> (Inl (Exception text), s1)))"
  by pat_completeness auto
termination
  apply (relation "measure (\<lambda>(w, s, q, m, p). length (api_keys s) - current_key_index s)")
   apply simp
  apply (auto dest!: fetch_body_pool [OF sym] switch_api_key_pool [OF sym])
  done

declare fetch_videos.simps [simp del]

section \<open>The polling scheduler (background\_fetcher.py)\<close>

text \<open>
  The scheduler object. Besides its fields the model keeps the worker threads that were
  started and have not left their loop (\<open>alive\<close>) and the number of threads created so far
  (\<open>spawned\<close>), which names the next thread. The operations are taken one after the other,
  as one caller issues them.
\<close>

record BackgroundVideoFetcher =
  search_queries :: "string list"
  fetch_interval :: int
  running :: bool
  thread :: "nat option"
  alive :: "nat list"
  spawned :: nat

definition init_fetcher :: "string list \<Rightarrow> int \<Rightarrow> BackgroundVideoFetcher" where
  "init_fetcher qs interval =
     \<lparr>search_queries = (if qs = [] then [''programming'', ''technology'', ''coding'',
                                          ''software development''] else qs),
      fetch_interval = interval, running = False, thread = None, alive = [], spawned = 0\<rparr>"

definition start :: "BackgroundVideoFetcher \<Rightarrow> BackgroundVideoFetcher" where
  "start f =
     (if running f then f
      else f\<lparr>running := True, thread := Some (spawned f), alive := alive f @ [spawned f],
             spawned := Suc (spawned f)\<rparr>)"

text \<open>\<^verbatim>\<open>join\<close> returns when the thread has left its loop.\<close>

definition stop :: "BackgroundVideoFetcher \<Rightarrow> BackgroundVideoFetcher" where
  "stop f =
     (let f1 = f\<lparr>running := False\<rparr> in
      case thread f1 of
        None \<Rightarrow> f1
      | Some t \<Rightarrow> f1\<lparr>alive := removeAll t (alive f1)\<rparr>)"

datatype operation = Start | Stop

fun apply_operation :: "BackgroundVideoFetcher \<Rightarrow> operation \<Rightarrow> BackgroundVideoFetcher" where
  "apply_operation f Start = start f"
| "apply_operation f Stop = stop f"

text \<open>\<^verbatim>\<open>str(e).lower()\<close>, on ASCII letters.\<close>

definition lower_char :: "char \<Rightarrow> char" where
  "lower_char c =
     (case map_of (zip ''ABCDEFGHIJKLMNOPQRSTUVWXYZ'' ''abcdefghijklmnopqrstuvwxyz'') c of
        None \<Rightarrow> c
      | Some l \<Rightarrow> l)"

definition lower :: "string \<Rightarrow> string" where
  "lower text = map lower_char text"

fun str :: "exn \<Rightarrow> string" where
  "str (HttpError status text) = text"
| "str (Exception text) = text"

datatype log_record = Info nat | Debug | Warning | Error string

text \<open>What one pass of the loop did: the query it fetched, how the fetch ended, what it
  logged about it, and the argument of the \<^verbatim>\<open>time.sleep\<close> that ended the pass.\<close>

record iteration =
  it_query :: string
  it_outcome :: "exn + fetch_result"
  it_logged :: log_record
  it_sleep :: int

text \<open>
  One pass with a non-empty rotation list. The pass runs in an application context of its
  own, whose end removes the session, so what the pass left uncommitted is gone.
\<close>

definition loop_iteration ::
  "BackgroundVideoFetcher \<Rightarrow> world \<Rightarrow> nat \<Rightarrow> state \<Rightarrow> iteration \<times> nat \<times> state" where
  "loop_iteration f w query_index s =
     (let current_query = search_queries f ! (query_index mod length (search_queries f));
          query_index' = query_index + 1
      in
      case fetch_videos w s current_query 25 None of
        (outcome, s1) \<Rightarrow>
          let s2 = s1\<lparr>session := committed s1\<rparr> in
          (case outcome of
             Inr result \<Rightarrow>
               (\<lparr>it_query = current_query, it_outcome = outcome,
                 it_logged = (case stored_count result of
                                None \<Rightarrow> Debug
                              | Some n \<Rightarrow> if n > 0 then Info n else Debug),
                 it_sleep = fetch_interval f\<rparr>, query_index', s2)
           | Inl e \<Rightarrow>
               let error_msg = lower (str e) in
               if contains ''exhausted'' error_msg \<or> contains ''quota'' error_msg
               then (\<lparr>it_query = current_query, it_outcome = outcome, it_logged = Warning,
                      it_sleep = 3600\<rparr>, query_index', s2)
               else (\<lparr>it_query = current_query, it_outcome = outcome,
                      it_logged = Error (str e), it_sleep = fetch_interval f\<rparr>,
                     query_index', s2)))"

text \<open>
  The loop, for as many passes as it finds \<^verbatim>\<open>self.running\<close> true: one environment per
  pass. With an empty rotation list the first pass divides by zero, the handler then reads
  \<^verbatim>\<open>current_query\<close> before it was ever bound, and the exception ends the thread.
\<close>

fun fetch_loop ::
  "BackgroundVideoFetcher \<Rightarrow> world list \<Rightarrow> nat \<Rightarrow> state \<Rightarrow> iteration list \<times> nat \<times> state" where
  "fetch_loop f [] query_index s = ([], query_index, s)"
| "fetch_loop f (w # ws) query_index s =
     (if search_queries f = [] then ([], query_index, s)
      else
        (case loop_iteration f w query_index s of
           (it, query_index', s') \<Rightarrow>
             (case fetch_loop f ws query_index' s' of
                (its, query_index'', s'') \<Rightarrow> (it # its, query_index'', s''))))"

section \<open>Properties\<close>

subsection \<open>The skip marker\<close>

text \<open>
  C4. \<^verbatim>\<open>should_skip_query\<close> answers true exactly when the cache backend is there, a
  marker is stored for the query, the marker is younger than the threshold (strictly) and
  it records zero new videos. In particular the answer is false without a backend, when
  the lookup or the decoding raises, when no marker is stored, for a marker whose age is
  exactly the threshold, and for a marker that records one new video.
\<close>

theorem should_skip_query_iff:
  "(should_skip_query c utcnow query h =
     (\<exists>r data. redis_client c = Some r \<and> skip_key r query = Reply data \<and>
        utcnow - last_attempt data < hours h \<and> new_videos data = 0)) \<and>
   \<not> should_skip_query \<lparr>redis_client = None\<rparr> utcnow query h \<and>
   \<not> should_skip_query \<lparr>redis_client = Some (r\<lparr>skip_key := (skip_key r)(query := Raises)\<rparr>)\<rparr> utcnow query h \<and>
   \<not> should_skip_query \<lparr>redis_client = Some (r\<lparr>skip_key := (skip_key r)(query := Absent)\<rparr>)\<rparr> utcnow query h \<and>
   \<not> should_skip_query \<lparr>redis_client = Some (r\<lparr>skip_key := (skip_key r)(query :=
        Reply \<lparr>last_attempt = utcnow - hours h, new_videos = 0\<rparr>)\<rparr>)\<rparr> utcnow query h \<and>
   \<not> should_skip_query \<lparr>redis_client = Some (r\<lparr>skip_key := (skip_key r)(query :=
        Reply \<lparr>last_attempt = utcnow, new_videos = 1\<rparr>)\<rparr>)\<rparr> utcnow query 6 \<and>
   should_skip_query \<lparr>redis_client = Some (r\<lparr>skip_key := (skip_key r)(query :=
        Reply \<lparr>last_attempt = utcnow - hours 6 + 1, new_videos = 0\<rparr>)\<rparr>)\<rparr> utcnow query 6"
  by (auto simp: should_skip_query_def hours_def split: option.splits redis_reply.splits)

subsection \<open>The usage ledger\<close>

text \<open>The ledger row of the active credential, as committed.\<close>

definition usage_row :: "state \<Rightarrow> APIKeyUsage option" where
  "usage_row s =
     find (\<lambda>u. api_key_hash u = SHA256 (api_keys s ! current_key_index s))
       (api_key_usage (committed s))"

text \<open>Values for the closed instances below: an empty database, an environment in which
  nothing is cached and the remote side has no videos, and a service with two credentials
  whose first one has a ledger row reset at the instant \<open>1000000\<close>.\<close>

definition empty_db :: database where
  "empty_db = \<lparr>videos = [], api_key_usage = [], search_cache = []\<rparr>"

definition quiet_world :: world where
  "quiet_world =
     \<lparr>clock_utcnow = 1000000, clock_now = 1000000, build_ok = (\<lambda>key. True),
      search_list_execute = (\<lambda>key req. Inr \<lparr>sr_items = [], sr_nextPageToken = None,
                                              sr_totalResults = 0\<rparr>),
      videos_list_execute = (\<lambda>key ids. Inr []),
      cache_service = \<lparr>redis_client = None\<rparr>,
      flush_error = (\<lambda>d. None),
      search_cache_error = (\<lambda>q. None)\<rparr>"

definition fresh_row :: APIKeyUsage where
  "fresh_row = \<lparr>api_key_hash = SHA256 ''k1'', quota_used = 0, last_reset = Some 1000000,
     is_exhausted = False\<rparr>"

definition ledger_state :: state where
  "ledger_state =
     \<lparr>api_keys = [''k1'', ''k2''], current_key_index = 0, youtube = Some ''k1'',
      session = empty_db\<lparr>api_key_usage := [fresh_row]\<rparr>,
      committed = empty_db\<lparr>api_key_usage := [fresh_row]\<rparr>, calls = []\<rparr>"

lemma find_holds: "find P xs = Some x \<Longrightarrow> P x"
  by (induction xs) (auto split: if_splits)

lemma find_update_first:
  "find P xs = Some x \<Longrightarrow> P (f x) \<Longrightarrow> find P (update_first P f xs) = Some (f x)"
  by (induction xs) (auto split: if_splits)

lemma track_row_hash: "api_key_hash (track_row now c u) = api_key_hash u"
  by (simp add: track_row_def Let_def)

lemma track_row_same_day:
  "last_reset u = Some t0 \<Longrightarrow> date now = date t0 \<Longrightarrow>
   track_row now c u =
     u\<lparr>quota_used := quota_used u + c,
       is_exhausted := (is_exhausted u \<or> quota_used u + c \<ge> 9500)\<rparr>"
  by (simp add: track_row_def Let_def)

lemma track_row_new_day:
  "last_reset u = Some t0 \<Longrightarrow> date t0 < date now \<Longrightarrow>
   track_row now c u =
     u\<lparr>quota_used := c, is_exhausted := (c \<ge> 9500), last_reset := Some now\<rparr>"
  by (simp add: track_row_def Let_def)

lemma track_api_usage_row:
  assumes "current_key_index s < length (api_keys s)"
    and "find (\<lambda>u. api_key_hash u = SHA256 (api_keys s ! current_key_index s))
           (api_key_usage (session s)) = Some u"
  shows "usage_row (track_api_usage w s c) = Some (track_row (clock_now w) c u)"
    and "session (track_api_usage w s c) = committed (track_api_usage w s c)"
  using assms
  by (auto simp add: track_api_usage_def usage_row_def commit_def Let_def track_row_hash
      intro!: find_update_first dest: find_holds)

text \<open>Once \<open>k\<close> charges of \<open>c\<close> units have reached the threshold, one more charge keeps
  the sum there: a sum of \<open>k\<close> negative charges is never that large.\<close>

lemma exhausted_step:
  fixes c :: int
  shows "(int k * c \<ge> 9500 \<or> int k * c + c \<ge> 9500) = (int k * c + c \<ge> 9500)"
proof (cases "c \<ge> 0")
  case True
  then show ?thesis by auto
next
  case False
  then have "int k * c \<le> 0" by (simp add: mult_nonneg_nonpos)
  then show ?thesis by auto
qed

lemma track_many:
  assumes "current_key_index s < length (api_keys s)"
    and "find (\<lambda>u. api_key_hash u = SHA256 (api_keys s ! current_key_index s))
           (api_key_usage (session s)) = Some u"
    and "quota_used u = int k * c" "is_exhausted u = (int k * c \<ge> 9500)"
    and "last_reset u = Some t0"
    and "\<forall>w \<in> set ws. date (clock_now w) = date t0"
  shows "\<exists>u'. usage_row (foldl (\<lambda>s w. track_api_usage w s c) (commit s) ws) = Some u' \<and>
           quota_used u' = int (k + length ws) * c \<and>
           is_exhausted u' = (int (k + length ws) * c \<ge> 9500)"
  using assms
proof (induction ws arbitrary: s u k)
  case Nil
  then show ?case by (simp add: usage_row_def commit_def)
next
  case (Cons w ws)
  let ?s = "track_api_usage w (commit s) c"
  let ?u = "track_row (clock_now w) c u"
  have keys: "api_keys ?s = api_keys s" "current_key_index ?s = current_key_index s"
    by (simp_all add: track_api_usage_frame commit_def)
  have pre: "current_key_index (commit s) < length (api_keys (commit s))"
    "find (\<lambda>u. api_key_hash u = SHA256 (api_keys (commit s) ! current_key_index (commit s)))
           (api_key_usage (session (commit s))) = Some u"
    using Cons.prems by (simp_all add: commit_def)
  have row: "usage_row ?s = Some ?u" and cm: "session ?s = committed ?s"
    using track_api_usage_row [OF pre] by simp_all
  have same: "date (clock_now w) = date t0" using Cons.prems by simp
  have u': "?u = u\<lparr>quota_used := quota_used u + c,
       is_exhausted := (is_exhausted u \<or> quota_used u + c \<ge> 9500)\<rparr>"
    using track_row_same_day [OF Cons.prems(5) same] .
  have cs: "commit ?s = ?s" using cm by (simp add: commit_def)
  have "\<exists>u'. usage_row (foldl (\<lambda>s w. track_api_usage w s c) (commit ?s) ws) = Some u' \<and>
           quota_used u' = int (Suc k + length ws) * c \<and>
           is_exhausted u' = (int (Suc k + length ws) * c \<ge> 9500)"
  proof (rule Cons.IH [of ?s ?u "Suc k"])
    show "current_key_index ?s < length (api_keys ?s)" using Cons.prems keys by simp
    show "find (\<lambda>u. api_key_hash u = SHA256 (api_keys ?s ! current_key_index ?s))
           (api_key_usage (session ?s)) = Some ?u"
      using row cm by (simp add: usage_row_def)
    show "quota_used ?u = int (Suc k) * c" using u' Cons.prems(3) by (simp add: algebra_simps)
    show "is_exhausted ?u = (int (Suc k) * c \<ge> 9500)"
      using u' Cons.prems(3,4) exhausted_step [of k c] by (simp add: algebra_simps)
    show "last_reset ?u = Some t0" using u' Cons.prems(5) by simp
    show "\<forall>w \<in> set ws. date (clock_now w) = date t0" using Cons.prems(6) by simp
  qed
  then show ?case using cs by simp
qed

text \<open>
  C3. On a service with an active credential and a clean session, whose ledger row for
  that credential has zero usage, is not exhausted and was last reset on the current day,
  \<open>N\<close> calls of \<^verbatim>\<open>_track_api_usage\<close> with cost \<open>c\<close>, all on that day, leave the row
  with usage \<open>N * c\<close> and with the exhausted flag set exactly when \<open>N * c \<ge> 9500\<close>. A
  call on a row whose last reset lies on an earlier day than the current one leaves usage
  \<open>c\<close> (zero plus the cost), the flag set exactly when \<open>c \<ge> 9500\<close> (cleared, then set by
  the threshold test), and the current instant as the last reset, whatever the row held.
\<close>

theorem track_api_usage_counts:
  "(current_key_index s < length (api_keys s) \<and> session s = committed s \<and>
    usage_row s = Some u0 \<and> quota_used u0 = 0 \<and> \<not> is_exhausted u0 \<and>
    last_reset u0 = Some t0 \<and> (\<forall>w \<in> set ws. date (clock_now w) = date t0)
    \<longrightarrow>
    (\<exists>u. usage_row (foldl (\<lambda>s w. track_api_usage w s c) s ws) = Some u \<and>
         quota_used u = int (length ws) * c \<and>
         is_exhausted u = (int (length ws) * c \<ge> 9500))) \<and>
   (current_key_index s < length (api_keys s) \<and> session s = committed s \<and>
    usage_row s = Some u1 \<and> last_reset u1 = Some t1 \<and> date t1 < date (clock_now w)
    \<longrightarrow>
    usage_row (track_api_usage w s c) =
      Some (u1\<lparr>quota_used := c, is_exhausted := (c \<ge> 9500),
              last_reset := Some (clock_now w)\<rparr>))"
proof (intro conjI impI)
  assume a: "current_key_index s < length (api_keys s) \<and> session s = committed s \<and>
    usage_row s = Some u0 \<and> quota_used u0 = 0 \<and> \<not> is_exhausted u0 \<and>
    last_reset u0 = Some t0 \<and> (\<forall>w \<in> set ws. date (clock_now w) = date t0)"
  then have cs: "commit s = s" by (simp add: commit_def)
  have "find (\<lambda>u. api_key_hash u = SHA256 (api_keys s ! current_key_index s))
           (api_key_usage (session s)) = Some u0"
    using a by (simp add: usage_row_def)
  from track_many [OF _ this, of 0 c t0 ws] a cs
  show "\<exists>u. usage_row (foldl (\<lambda>s w. track_api_usage w s c) s ws) = Some u \<and>
         quota_used u = int (length ws) * c \<and>
         is_exhausted u = (int (length ws) * c \<ge> 9500)"
    by simp
next
  assume a: "current_key_index s < length (api_keys s) \<and> session s = committed s \<and>
    usage_row s = Some u1 \<and> last_reset u1 = Some t1 \<and> date t1 < date (clock_now w)"
  have "find (\<lambda>u. api_key_hash u = SHA256 (api_keys s ! current_key_index s))
           (api_key_usage (session s)) = Some u1"
    using a by (simp add: usage_row_def)
  from track_api_usage_row(1) [OF _ this, of w c] a
  show "usage_row (track_api_usage w s c) =
      Some (u1\<lparr>quota_used := c, is_exhausted := (c \<ge> 9500),
              last_reset := Some (clock_now w)\<rparr>)"
    by (simp add: track_row_new_day)
qed

text \<open>Ninety-five searches of 100 units reach the threshold, ninety-four do not; and a
  row that was exhausted yesterday holds one unit after a charge of one unit today.\<close>

theorem track_api_usage_counts_witness:
  "(\<exists>u. usage_row (foldl (\<lambda>s w. track_api_usage w s 100) ledger_state
            (replicate 95 quiet_world)) = Some u \<and>
        quota_used u = 9500 \<and> is_exhausted u) \<and>
   (\<exists>u. usage_row (foldl (\<lambda>s w. track_api_usage w s 100) ledger_state
            (replicate 94 quiet_world)) = Some u \<and>
        quota_used u = 9400 \<and> \<not> is_exhausted u) \<and>
   usage_row (track_api_usage (quiet_world\<lparr>clock_now := 1000000 + 86400\<rparr>)
       (ledger_state\<lparr>session := empty_db\<lparr>api_key_usage :=
                         [fresh_row\<lparr>quota_used := 9600, is_exhausted := True\<rparr>]\<rparr>,
                     committed := empty_db\<lparr>api_key_usage :=
                         [fresh_row\<lparr>quota_used := 9600, is_exhausted := True\<rparr>]\<rparr>\<rparr>) 1) =
     Some (fresh_row\<lparr>quota_used := 1, is_exhausted := False, last_reset := Some 1086400\<rparr>)"
proof -
  have 1: "usage_row ledger_state = Some fresh_row"
    by (simp add: usage_row_def ledger_state_def empty_db_def fresh_row_def)
  have 2: "current_key_index ledger_state < length (api_keys ledger_state)"
    "session ledger_state = committed ledger_state"
    by (simp_all add: ledger_state_def)
  have 3: "quota_used fresh_row = 0" "\<not> is_exhausted fresh_row"
    "last_reset fresh_row = Some 1000000"
    by (simp_all add: fresh_row_def)
  have 4: "\<forall>w \<in> set (replicate n quiet_world). date (clock_now w) = date 1000000" for n
    by (simp add: quiet_world_def)
  show ?thesis
    using track_api_usage_counts [of ledger_state fresh_row 1000000 "replicate 95 quiet_world" 100]
      track_api_usage_counts [of ledger_state fresh_row 1000000 "replicate 94 quiet_world" 100]
      track_api_usage_counts [of "ledger_state\<lparr>session := empty_db\<lparr>api_key_usage :=
                         [fresh_row\<lparr>quota_used := 9600, is_exhausted := True\<rparr>]\<rparr>,
                     committed := empty_db\<lparr>api_key_usage :=
                         [fresh_row\<lparr>quota_used := 9600, is_exhausted := True\<rparr>]\<rparr>\<rparr>"
           _ _ _ 1 "fresh_row\<lparr>quota_used := 9600, is_exhausted := True\<rparr>" 1000000
           "quiet_world\<lparr>clock_now := 1000000 + 86400\<rparr>"]
      1 2 3 4
    by (simp add: usage_row_def ledger_state_def empty_db_def fresh_row_def quiet_world_def date_def)
qed

subsection \<open>The scheduler: one worker\<close>

text \<open>While the scheduler runs, \<open>thread\<close> is the one worker that is alive; while it does
  not run, none is.\<close>

definition single_worker :: "BackgroundVideoFetcher \<Rightarrow> bool" where
  "single_worker f =
     (if running f then (case thread f of None \<Rightarrow> False | Some t \<Rightarrow> alive f = [t])
      else alive f = [])"

lemma single_worker_init: "single_worker (init_fetcher qs interval)"
  by (simp add: single_worker_def init_fetcher_def)

lemma single_worker_start: "single_worker f \<Longrightarrow> single_worker (start f)"
  by (simp add: single_worker_def start_def)

lemma single_worker_stop: "single_worker f \<Longrightarrow> single_worker (stop f)"
  by (auto simp add: single_worker_def stop_def Let_def split: option.splits if_splits)

lemma single_worker_run: "single_worker f \<Longrightarrow> single_worker (foldl apply_operation f ops)"
proof (induction ops arbitrary: f)
  case Nil
  then show ?case by simp
next
  case (Cons operation ops)
  then show ?case
    by (cases operation) (simp_all add: single_worker_start single_worker_stop)
qed

lemma single_worker_alive: "single_worker f \<Longrightarrow> length (alive f) \<le> 1"
  by (auto simp add: single_worker_def split: if_splits option.splits)

lemma single_worker_stop_alive: "single_worker f \<Longrightarrow> alive (stop f) = []"
  by (auto simp add: single_worker_def stop_def Let_def split: if_splits option.splits)

text \<open>
  C10. \<^verbatim>\<open>start\<close> on a scheduler that is running changes nothing, so a second
  \<^verbatim>\<open>start\<close> spawns no second worker. After any sequence of \<^verbatim>\<open>start\<close> and
  \<^verbatim>\<open>stop\<close> calls on a new scheduler, issued one after the other, at most one worker
  is alive, it is the thread the scheduler holds, and a \<^verbatim>\<open>stop\<close> joins exactly that
  one, after which none is alive.
\<close>

theorem start_while_running:
  "start (f\<lparr>running := True\<rparr>) = f\<lparr>running := True\<rparr> \<and>
   start (start f) = start f \<and>
   single_worker (foldl apply_operation (init_fetcher qs interval) ops) \<and>
   length (alive (foldl apply_operation (init_fetcher qs interval) ops)) \<le> 1 \<and>
   alive (stop (foldl apply_operation (init_fetcher qs interval) ops)) = []"
proof -
  have inv: "single_worker (foldl apply_operation (init_fetcher qs interval) ops)"
    by (rule single_worker_run [OF single_worker_init])
  have "start (f\<lparr>running := True\<rparr>) = f\<lparr>running := True\<rparr>" "start (start f) = start f"
    by (simp_all add: start_def)
  with inv single_worker_alive [OF inv] single_worker_stop_alive [OF inv]
  show ?thesis by simp
qed

subsection \<open>The scheduler: rotation\<close>

text \<open>
  What the rotation is measured against: the query list read round-robin from an index,
  and the given queries fetched one after the other in the given environments, each
  with the scheduler's batch size of 25, without a page token and in an application
  context of its own.
\<close>

definition rotation :: "string list \<Rightarrow> nat \<Rightarrow> nat \<Rightarrow> string list" where
  "rotation qs i n = map (\<lambda>j. qs ! (j mod length qs)) [i ..< i + n]"

fun fetches_in_order ::
  "world list \<Rightarrow> string list \<Rightarrow> state \<Rightarrow> (exn + fetch_result) list \<times> state" where
  "fetches_in_order (w # ws) (q # qs) s =
     (case fetch_videos w s q 25 None of
        (outcome, s1) \<Rightarrow>
          (case fetches_in_order ws qs (s1\<lparr>session := committed s1\<rparr>) of
             (outcomes, s') \<Rightarrow> (outcome # outcomes, s')))"
| "fetches_in_order ws qs s = ([], s)"

lemma rotation_Suc: "rotation qs i (Suc n) = qs ! (i mod length qs) # rotation qs (Suc i) n"
  by (simp add: rotation_def upt_conv_Cons del: upt_Suc)

lemma loop_iteration_query:
  "loop_iteration f w i s = (it, i', s') \<Longrightarrow>
     it_query it = search_queries f ! (i mod length (search_queries f)) \<and> i' = Suc i"
  by (auto simp add: loop_iteration_def Let_def split: prod.splits sum.splits if_splits)

lemma loop_iteration_fetch:
  "loop_iteration f w i s = (it, i', s') \<Longrightarrow>
     it_outcome it =
       fst (fetch_videos w s (search_queries f ! (i mod length (search_queries f))) 25 None) \<and>
     s' = (snd (fetch_videos w s (search_queries f ! (i mod length (search_queries f))) 25 None))
            \<lparr>session := committed (snd (fetch_videos w s
                 (search_queries f ! (i mod length (search_queries f))) 25 None))\<rparr>"
  by (auto simp add: loop_iteration_def Let_def split: prod.splits sum.splits if_splits)

lemma fetch_loop_trace:
  "search_queries f \<noteq> [] \<Longrightarrow>
     map it_query (fst (fetch_loop f ws i s)) = rotation (search_queries f) i (length ws) \<and>
     fst (snd (fetch_loop f ws i s)) = i + length ws"
proof (induction ws arbitrary: i s)
  case Nil
  then show ?case by (simp add: rotation_def)
next
  case (Cons w ws)
  obtain it i' s' where step: "loop_iteration f w i s = (it, i', s')"
    by (cases "loop_iteration f w i s") auto
  obtain its i'' s'' where rest: "fetch_loop f ws i' s' = (its, i'', s'')"
    by (cases "fetch_loop f ws i' s'") auto
  from loop_iteration_query [OF step]
  have q: "it_query it = search_queries f ! (i mod length (search_queries f))" and i': "i' = Suc i"
    by simp_all
  from Cons.IH [OF Cons.prems, of i' s'] rest
  have ih: "map it_query its = rotation (search_queries f) i' (length ws)"
    "i'' = i' + length ws"
    by simp_all
  have "fetch_loop f (w # ws) i s = (it # its, i'', s'')"
    using Cons.prems step rest by simp
  then show ?case
    using q ih i' by (simp add: rotation_Suc)
qed

lemma fetch_loop_fetches:
  "search_queries f \<noteq> [] \<Longrightarrow>
     map it_outcome (fst (fetch_loop f ws i s)) =
       fst (fetches_in_order ws (rotation (search_queries f) i (length ws)) s) \<and>
     snd (snd (fetch_loop f ws i s)) =
       snd (fetches_in_order ws (rotation (search_queries f) i (length ws)) s)"
proof (induction ws arbitrary: i s)
  case Nil
  then show ?case by simp
next
  case (Cons w ws)
  let ?q = "search_queries f ! (i mod length (search_queries f))"
  obtain it i' s' where step: "loop_iteration f w i s = (it, i', s')"
    by (cases "loop_iteration f w i s") auto
  obtain its i'' s'' where rest: "fetch_loop f ws i' s' = (its, i'', s'')"
    by (cases "fetch_loop f ws i' s'") auto
  obtain outcome s1 where fv: "fetch_videos w s ?q 25 None = (outcome, s1)"
    by (cases "fetch_videos w s ?q 25 None") auto
  from loop_iteration_query [OF step] have i': "i' = Suc i" by simp
  from loop_iteration_fetch [OF step] fv
  have o: "it_outcome it = outcome" and s': "s' = s1\<lparr>session := committed s1\<rparr>"
    by simp_all
  from Cons.IH [OF Cons.prems, of i' s'] rest
  have ih: "map it_outcome its =
      fst (fetches_in_order ws (rotation (search_queries f) i' (length ws)) s')"
    "s'' = snd (fetches_in_order ws (rotation (search_queries f) i' (length ws)) s')"
    by simp_all
  have loop: "fetch_loop f (w # ws) i s = (it # its, i'', s'')"
    using Cons.prems step rest by simp
  show ?case
    using loop fv o s' ih i' by (simp add: rotation_Suc split: prod.splits)
qed

text \<open>
  C9. With a non-empty rotation list, the passes of the loop take the queries at the
  indices \<open>i mod n\<close>, \<open>(i + 1) mod n\<close>, ... of the list, one per pass, and each pass
  fetches its query: the outcomes of the passes, and the service and the database after
  them, are those of \<^verbatim>\<open>fetch_videos\<close> called on these queries one after the other, in
  this order. The index has advanced by the number of passes, however the fetches ended.
  For the list \<open>a, b, c\<close> the first three passes are the fetches of \<open>a\<close>, \<open>b\<close> and
  \<open>c\<close>, each once, in this order, in any three environments; the first of them is
  \<^verbatim>\<open>fetch_videos\<close> on \<open>a\<close> in the first environment.
\<close>

theorem rotation_order:
  "(search_queries f \<noteq> [] \<longrightarrow>
      map it_query (fst (fetch_loop f ws i s)) =
        map (\<lambda>j. search_queries f ! (j mod length (search_queries f))) [i ..< i + length ws] \<and>
      fst (snd (fetch_loop f ws i s)) = i + length ws \<and>
      map it_outcome (fst (fetch_loop f ws i s)) =
        fst (fetches_in_order ws (rotation (search_queries f) i (length ws)) s) \<and>
      snd (snd (fetch_loop f ws i s)) =
        snd (fetches_in_order ws (rotation (search_queries f) i (length ws)) s)) \<and>
   map it_query (fst (fetch_loop (init_fetcher [''a'', ''b'', ''c''] interval) [w1, w2, w3] 0 s)) =
     [''a'', ''b'', ''c''] \<and>
   map it_outcome (fst (fetch_loop (init_fetcher [''a'', ''b'', ''c''] interval) [w1, w2, w3] 0 s)) =
     fst (fetches_in_order [w1, w2, w3] [''a'', ''b'', ''c''] s) \<and>
   snd (snd (fetch_loop (init_fetcher [''a'', ''b'', ''c''] interval) [w1, w2, w3] 0 s)) =
     snd (fetches_in_order [w1, w2, w3] [''a'', ''b'', ''c''] s) \<and>
   hd (fst (fetches_in_order [w1, w2, w3] [''a'', ''b'', ''c''] s)) =
     fst (fetch_videos w1 s ''a'' 25 None)"
proof -
  have general: "search_queries f \<noteq> [] \<longrightarrow>
      map it_query (fst (fetch_loop f ws i s)) =
        map (\<lambda>j. search_queries f ! (j mod length (search_queries f))) [i ..< i + length ws] \<and>
      fst (snd (fetch_loop f ws i s)) = i + length ws \<and>
      map it_outcome (fst (fetch_loop f ws i s)) =
        fst (fetches_in_order ws (rotation (search_queries f) i (length ws)) s) \<and>
      snd (snd (fetch_loop f ws i s)) =
        snd (fetches_in_order ws (rotation (search_queries f) i (length ws)) s)"
    using fetch_loop_trace [of f ws i s] fetch_loop_fetches [of f ws i s]
    by (simp add: rotation_def)
  have ne: "search_queries (init_fetcher [''a'', ''b'', ''c''] interval) \<noteq> []"
    by (simp add: init_fetcher_def)
  have rot: "rotation (search_queries (init_fetcher [''a'', ''b'', ''c''] interval)) 0
      (length [w1, w2, w3]) = [''a'', ''b'', ''c'']"
    by (simp add: rotation_def init_fetcher_def upt_conv_Cons)
  have abc: "map it_query (fst (fetch_loop (init_fetcher [''a'', ''b'', ''c''] interval)
        [w1, w2, w3] 0 s)) = [''a'', ''b'', ''c'']"
    "map it_outcome (fst (fetch_loop (init_fetcher [''a'', ''b'', ''c''] interval)
        [w1, w2, w3] 0 s)) = fst (fetches_in_order [w1, w2, w3] [''a'', ''b'', ''c''] s)"
    "snd (snd (fetch_loop (init_fetcher [''a'', ''b'', ''c''] interval) [w1, w2, w3] 0 s)) =
      snd (fetches_in_order [w1, w2, w3] [''a'', ''b'', ''c''] s)"
    using fetch_loop_trace [OF ne, of "[w1, w2, w3]" 0 s]
      fetch_loop_fetches [OF ne, of "[w1, w2, w3]" 0 s] rot
    by simp_all
  have first: "hd (fst (fetches_in_order [w1, w2, w3] [''a'', ''b'', ''c''] s)) =
     fst (fetch_videos w1 s ''a'' 25 None)"
    by (simp split: prod.splits)
  show ?thesis
    by (rule conjI [OF general], rule conjI [OF abc(1)], rule conjI [OF abc(2)],
        rule conjI [OF abc(3)], rule first)
qed

text \<open>Two queries, three passes on the example service: the third pass is back at the
  first query, and the three search calls that were issued ask for \<open>a\<close>, \<open>b\<close> and
  \<open>a\<close>, 25 results each.\<close>

theorem rotation_order_witness:
  "search_queries (init_fetcher [''a'', ''b''] 10) \<noteq> [] \<and>
   map it_query (fst (fetch_loop (init_fetcher [''a'', ''b''] 10)
       [quiet_world, quiet_world, quiet_world] 0 ledger_state)) = [''a'', ''b'', ''a''] \<and>
   fst (snd (fetch_loop (init_fetcher [''a'', ''b''] 10)
       [quiet_world, quiet_world, quiet_world] 0 ledger_state)) = 3 \<and>
   calls (snd (snd (fetch_loop (init_fetcher [''a'', ''b''] 10)
       [quiet_world, quiet_world, quiet_world] 0 ledger_state))) =
     [SearchList ''k1'' \<lparr>req_q = ''a'', req_publishedAfter = 395200, req_maxResults = 25,
                          req_pageToken = None\<rparr>,
      SearchList ''k1'' \<lparr>req_q = ''b'', req_publishedAfter = 395200, req_maxResults = 25,
                          req_pageToken = None\<rparr>,
      SearchList ''k1'' \<lparr>req_q = ''a'', req_publishedAfter = 395200, req_maxResults = 25,
                          req_pageToken = None\<rparr>]"
proof -
  have ne: "search_queries (init_fetcher [''a'', ''b''] 10) \<noteq> []"
    by (simp add: init_fetcher_def)
  have upt: "[0 ..< 0 + length [quiet_world, quiet_world, quiet_world]] = [0, 1, 2]"
    by (simp add: upt_conv_Cons)
  have rot: "rotation (search_queries (init_fetcher [''a'', ''b''] 10)) 0
      (length [quiet_world, quiet_world, quiet_world]) = [''a'', ''b'', ''a'']"
    by (simp add: rotation_def init_fetcher_def upt_conv_Cons)
  have seq: "calls (snd (fetches_in_order [quiet_world, quiet_world, quiet_world]
      [''a'', ''b'', ''a''] ledger_state)) =
     [SearchList ''k1'' \<lparr>req_q = ''a'', req_publishedAfter = 395200, req_maxResults = 25,
                          req_pageToken = None\<rparr>,
      SearchList ''k1'' \<lparr>req_q = ''b'', req_publishedAfter = 395200, req_maxResults = 25,
                          req_pageToken = None\<rparr>,
      SearchList ''k1'' \<lparr>req_q = ''a'', req_publishedAfter = 395200, req_maxResults = 25,
                          req_pageToken = None\<rparr>]"
    by (simp add: fetch_videos.simps fetch_body_def first_page_def should_skip_query_def
        get_cached_search_results_def get_quota_usage_def remote_fetch_def detail_step_def
        persist_def track_api_usage_def track_row_def update_search_cache_def commit_def
        Let_def date_def days_def quiet_world_def ledger_state_def empty_db_def fresh_row_def)
  show ?thesis
    using rotation_order [of "init_fetcher [''a'', ''b''] 10"
        "[quiet_world, quiet_world, quiet_world]" 0 ledger_state] ne upt rot seq
    by (simp add: init_fetcher_def)
qed

subsection \<open>The scheduler: backoff\<close>

text \<open>A service with a single credential, and three environments whose search call
  fails: with the quota error, with a rate-limit error, and with a server error.\<close>

definition one_key_state :: state where
  "one_key_state =
     \<lparr>api_keys = [''k1''], current_key_index = 0, youtube = Some ''k1'',
      session = empty_db, committed = empty_db, calls = []\<rparr>"

definition exhausted_world :: world where
  "exhausted_world = quiet_world\<lparr>search_list_execute := (\<lambda>key req. Inl (HttpError 403 ''quotaExceeded''))\<rparr>"

definition rate_limited_world :: world where
  "rate_limited_world = quiet_world\<lparr>search_list_execute :=
     (\<lambda>key req. Inl (HttpError 429
        ''rateLimitExceeded: Quota exceeded for quota metric Queries''))\<rparr>"

definition broken_world :: world where
  "broken_world = quiet_world\<lparr>search_list_execute := (\<lambda>key req. Inl (HttpError 500 ''backendError''))\<rparr>"

lemmas fetch_eval = fetch_videos.simps fetch_body_def first_page_def should_skip_query_def
  get_cached_search_results_def get_quota_usage_def remote_fetch_def switch_api_key_def Let_def
  quiet_world_def one_key_state_def loop_iteration_def init_fetcher_def lower_def lower_char_def

text \<open>
  C8, as the code has it. A pass whose fetch fails with an error whose text, in lower case,
  contains \<open>exhausted\<close> or \<open>quota\<close> logs a warning and sleeps 3600 seconds, with no
  further sleep of the normal interval; the failure \<open>All API keys exhausted\<close> is one of
  these. A pass whose fetch fails with an error whose text contains neither word logs the
  error and sleeps the normal interval. In both cases the index has advanced by one, so
  the next pass takes the next query.
\<close>

theorem backoff_on_error_text:
  "(fst (fetch_videos w s (search_queries f ! (i mod length (search_queries f))) 25 None) = Inl e \<and>
    (contains ''exhausted'' (lower (str e)) \<or> contains ''quota'' (lower (str e)))
    \<longrightarrow> it_sleep (fst (loop_iteration f w i s)) = 3600 \<and>
        it_logged (fst (loop_iteration f w i s)) = Warning \<and>
        fst (snd (loop_iteration f w i s)) = i + 1) \<and>
   (fst (fetch_videos w s (search_queries f ! (i mod length (search_queries f))) 25 None) =
      Inl (Exception ''All API keys exhausted'')
    \<longrightarrow> it_sleep (fst (loop_iteration f w i s)) = 3600) \<and>
   (fst (fetch_videos w s (search_queries f ! (i mod length (search_queries f))) 25 None) = Inl e' \<and>
    \<not> contains ''exhausted'' (lower (str e')) \<and> \<not> contains ''quota'' (lower (str e'))
    \<longrightarrow> it_sleep (fst (loop_iteration f w i s)) = fetch_interval f \<and>
        it_logged (fst (loop_iteration f w i s)) = Error (str e') \<and>
        fst (snd (loop_iteration f w i s)) = i + 1)"
proof -
  obtain outcome s1 where
    r: "fetch_videos w s (search_queries f ! (i mod length (search_queries f))) 25 None = (outcome, s1)"
    by (cases "fetch_videos w s (search_queries f ! (i mod length (search_queries f))) 25 None") auto
  have ex: "contains ''exhausted'' (lower (str (Exception ''All API keys exhausted'')))"
    by (simp add: lower_def lower_char_def)
  show ?thesis
    using r ex by (auto simp add: loop_iteration_def Let_def split: sum.splits)
qed

text \<open>With its only credential out of quota the fetch fails with
  \<open>All API keys exhausted\<close> and the pass sleeps 3600 seconds; with a server error it
  logs the error and sleeps the 10 seconds of the interval.\<close>

theorem backoff_on_error_text_witness:
  "it_outcome (fst (loop_iteration (init_fetcher [''a''] 10) exhausted_world 0 one_key_state)) =
     Inl (Exception ''All API keys exhausted'') \<and>
   it_sleep (fst (loop_iteration (init_fetcher [''a''] 10) exhausted_world 0 one_key_state)) = 3600 \<and>
   it_logged (fst (loop_iteration (init_fetcher [''a''] 10) exhausted_world 0 one_key_state)) = Warning \<and>
   it_outcome (fst (loop_iteration (init_fetcher [''a''] 10) broken_world 0 one_key_state)) =
     Inl (Exception ''YouTube API error: backendError'') \<and>
   it_sleep (fst (loop_iteration (init_fetcher [''a''] 10) broken_world 0 one_key_state)) = 10 \<and>
   it_logged (fst (loop_iteration (init_fetcher [''a''] 10) broken_world 0 one_key_state)) =
     Error ''YouTube API error: backendError'' \<and>
   fst (snd (loop_iteration (init_fetcher [''a''] 10) broken_world 0 one_key_state)) = 1"
proof -
  have q: "search_queries (init_fetcher [''a''] 10) !
      (0 mod length (search_queries (init_fetcher [''a''] 10))) = ''a''"
    by (simp add: init_fetcher_def)
  have 1: "fst (fetch_videos exhausted_world one_key_state ''a'' 25 None) =
      Inl (Exception ''All API keys exhausted'')"
    by (simp add: fetch_eval exhausted_world_def)
  have 2: "fst (fetch_videos broken_world one_key_state ''a'' 25 None) =
      Inl (Exception ''YouTube API error: backendError'')"
    by (simp add: fetch_eval broken_world_def)
  have 3: "contains ''exhausted'' (lower (str (Exception ''All API keys exhausted'')))"
    by (simp add: lower_def lower_char_def)
  have 4: "\<not> contains ''exhausted'' (lower (str (Exception ''YouTube API error: backendError'')))"
    "\<not> contains ''quota'' (lower (str (Exception ''YouTube API error: backendError'')))"
    by (simp_all add: lower_def lower_char_def)
  have o1: "it_outcome (fst (loop_iteration (init_fetcher [''a''] 10) exhausted_world 0 one_key_state)) =
     fst (fetch_videos exhausted_world one_key_state ''a'' 25 None)"
    and o2: "it_outcome (fst (loop_iteration (init_fetcher [''a''] 10) broken_world 0 one_key_state)) =
     fst (fetch_videos broken_world one_key_state ''a'' 25 None)"
    by (auto simp add: loop_iteration_def Let_def init_fetcher_def split: prod.splits sum.splits)
  have fi: "fetch_interval (init_fetcher [''a''] 10) = 10" by (simp add: init_fetcher_def)
  show ?thesis
    using backoff_on_error_text [of exhausted_world one_key_state "init_fetcher [''a''] 10" 0
        "Exception ''All API keys exhausted''" "Exception ''YouTube API error: backendError''"]
      backoff_on_error_text [of broken_world one_key_state "init_fetcher [''a''] 10" 0
        "Exception ''All API keys exhausted''" "Exception ''YouTube API error: backendError''"]
      q 1 2 3 4 o1 o2 fi
    by simp
qed

text \<open>A failure other than the exhaustion of all credentials that is not followed by the
  normal interval: the search call is answered with status 429 and a text that speaks of
  a quota. The fetch fails with the wrapped API error, and the pass logs the warning and
  sleeps 3600 seconds, not the 10 seconds of the interval.\<close>

theorem backoff_counterexample:
  "it_outcome (fst (loop_iteration (init_fetcher [''a''] 10) rate_limited_world 0 one_key_state)) =
     Inl (Exception ''YouTube API error: rateLimitExceeded: Quota exceeded for quota metric Queries'') \<and>
   it_sleep (fst (loop_iteration (init_fetcher [''a''] 10) rate_limited_world 0 one_key_state)) = 3600 \<and>
   fetch_interval (init_fetcher [''a''] 10) = 10 \<and>
   it_logged (fst (loop_iteration (init_fetcher [''a''] 10) rate_limited_world 0 one_key_state)) = Warning"
  by (simp add: fetch_eval rate_limited_world_def)

subsection \<open>The upsert\<close>

lemma update_first_split:
  "find P xs = Some v \<Longrightarrow>
     \<exists>pre post. xs = pre @ v # post \<and> (\<forall>x \<in> set pre. \<not> P x) \<and>
       update_first P f xs = pre @ f v # post"
proof (induction xs)
  case Nil
  then show ?case by simp
next
  case (Cons x xs)
  show ?case
  proof (cases "P x")
    case True
    with Cons.prems have "x = v" by simp
    with True have "x # xs = [] @ v # xs \<and> (\<forall>x \<in> set []. \<not> P x) \<and>
        update_first P f (x # xs) = [] @ f v # xs"
      by simp
    then show ?thesis by blast
  next
    case False
    with Cons.prems have "find P xs = Some v" by simp
    from Cons.IH [OF this] obtain pre post where
      "xs = pre @ v # post" "\<forall>x \<in> set pre. \<not> P x" "update_first P f xs = pre @ f v # post"
      by blast
    with False have "x # xs = (x # pre) @ v # post \<and> (\<forall>y \<in> set (x # pre). \<not> P y) \<and>
        update_first P f (x # xs) = (x # pre) @ f v # post"
      by simp
    then show ?thesis by blast
  qed
qed

lemma find_snoc:
  "find P xs = None \<Longrightarrow> find P (xs @ [x]) = (if P x then Some x else None)"
  by (induction xs) (auto split: if_splits)

lemma update_first_snoc:
  "\<forall>x \<in> set xs. \<not> P x \<Longrightarrow> P y \<Longrightarrow> update_first P f (xs @ [y]) = xs @ [f y]"
  by (induction xs) auto

lemma length_update_first: "length (update_first P f xs) = length xs"
  by (induction xs) auto

lemma upsert_absent:
  "\<forall>v \<in> set tbl. video_id v \<noteq> video_id d \<Longrightarrow>
     upsert now tbl d = (tbl @ [new_video now (next_id tbl) d], True)"
proof -
  assume "\<forall>v \<in> set tbl. video_id v \<noteq> video_id d"
  then have "find (\<lambda>v. video_id v = video_id d) tbl = None"
    by (simp add: find_None_iff)
  then show ?thesis by (simp add: upsert_def)
qed

lemma upsert_present:
  "find (\<lambda>v. video_id v = video_id d) tbl = Some v \<Longrightarrow>
     \<exists>pre post. tbl = pre @ v # post \<and> (\<forall>x \<in> set pre. video_id x \<noteq> video_id d) \<and>
       upsert now tbl d = (pre @ overwrite now d v # post, False)"
  using update_first_split [of "\<lambda>v. video_id v = video_id d" tbl v "overwrite now d"]
  by (auto simp add: upsert_def)

lemma overwrite_id: "video_id (overwrite now d v) = video_id v"
  by (simp add: overwrite_def)

lemma new_video_id: "video_id (new_video now i d) = video_id d"
  by (simp add: new_video_def)

lemma upsert_twice:
  assumes "\<forall>v \<in> set tbl. video_id v \<noteq> video_id d1" and "video_id d2 = video_id d1"
  shows "fst (upsert t2 (fst (upsert t1 tbl d1)) d2) =
           tbl @ [overwrite t2 d2 (new_video t1 (next_id tbl) d1)]"
    and "snd (upsert t2 (fst (upsert t1 tbl d1)) d2) = False"
proof -
  let ?r = "new_video t1 (next_id tbl) d1"
  have none: "find (\<lambda>v. video_id v = video_id d2) tbl = None"
    using assms by (simp add: find_None_iff)
  have f: "find (\<lambda>v. video_id v = video_id d2) (tbl @ [?r]) = Some ?r"
    using none assms(2) by (simp add: find_snoc new_video_id)
  have u: "update_first (\<lambda>v. video_id v = video_id d2) g (tbl @ [?r]) = tbl @ [g ?r]" for g
    using assms by (simp add: update_first_snoc new_video_id)
  show "fst (upsert t2 (fst (upsert t1 tbl d1)) d2) =
           tbl @ [overwrite t2 d2 (new_video t1 (next_id tbl) d1)]"
    and "snd (upsert t2 (fst (upsert t1 tbl d1)) d2) = False"
    using upsert_absent [OF assms(1), of t1] f u by (simp_all add: upsert_def)
qed

lemma length_upsert:
  "upsert now tbl d = (tbl', created) \<Longrightarrow>
     length tbl' = (if created then Suc (length tbl) else length tbl)"
  by (auto simp add: upsert_def length_update_first split: option.splits)

lemma store_videos_count:
  "store_videos now rej tbl ds n = Inr (tbl', n') \<Longrightarrow> n' + length tbl = n + length tbl'"
proof (induction ds arbitrary: tbl n)
  case Nil
  then show ?case by simp
next
  case (Cons d ds)
  from Cons.prems have ok: "rej d = None" by (simp split: option.splits)
  obtain t1 created where u: "upsert now tbl d = (t1, created)"
    by (cases "upsert now tbl d") auto
  from Cons.prems ok u
  have "store_videos now rej t1 ds (if created then n + 1 else n) = Inr (tbl', n')"
    by simp
  from Cons.IH [OF this] length_upsert [OF u]
  show ?case by (simp split: if_splits)
qed

text \<open>Two items with one external id: the first with details, the second, fetched later,
  without (the detail response did not list it).\<close>

definition item_first :: video_data where
  "item_first =
     \<lparr>video_id = ''v1'', title = ''Old title'', description = ''old'', published_at = 100,
      thumbnail_default = ''d1'', thumbnail_medium = ''m1'', thumbnail_high = ''h1'',
      channel_id = ''c1'', channel_title = ''Channel'', details = Some (''PT5M'', 10)\<rparr>"

definition item_second :: video_data where
  "item_second =
     \<lparr>video_id = ''v1'', title = ''New title'', description = ''new'', published_at = 100,
      thumbnail_default = ''d2'', thumbnail_medium = ''m2'', thumbnail_high = ''h2'',
      channel_id = ''c1'', channel_title = ''Channel'', details = None\<rparr>"

text \<open>
  C1, as the code has it. If no stored row has the item's external id, a row is appended
  that holds the item's values and the current instant as its created timestamp, and the
  pass reports a new row. If a row has the id, the first such row is changed in place and
  no row is added: the title, description, publish timestamp, thumbnails and channel
  fields become the item's; the duration and view count become the item's when the item
  carries details, and keep their stored values when it carries none; the external id,
  the primary key and the created timestamp are kept. Ingesting one external id twice
  into a table without it leaves exactly one row with this id, which holds the second
  item's values, with the proviso above, and the first created timestamp. The counter of
  the storing loop grows by the number of rows the loop added.
\<close>

theorem upsert_semantics:
  "((\<forall>v \<in> set tbl. video_id v \<noteq> video_id d) \<longrightarrow>
      upsert now tbl d = (tbl @ [new_video now (next_id tbl) d], True)) \<and>
   (find (\<lambda>v. video_id v = video_id d) tbl = Some v \<longrightarrow>
      (\<exists>pre post. tbl = pre @ v # post \<and> (\<forall>x \<in> set pre. video_id x \<noteq> video_id d) \<and>
         upsert now tbl d = (pre @ overwrite now d v # post, False))) \<and>
   (video_id (new_video now i d) = video_id d \<and> created_at (new_video now i d) = now \<and>
    title (new_video now i d) = title d \<and> description (new_video now i d) = description d \<and>
    published_at (new_video now i d) = published_at d \<and>
    duration (new_video now i d) = map_option fst (details d) \<and>
    view_count (new_video now i d) = map_option snd (details d)) \<and>
   (video_id (overwrite now d v) = video_id v \<and> id_col (overwrite now d v) = id_col v \<and>
    created_at (overwrite now d v) = created_at v \<and>
    title (overwrite now d v) = title d \<and> description (overwrite now d v) = description d \<and>
    published_at (overwrite now d v) = published_at d \<and>
    thumbnail_default (overwrite now d v) = thumbnail_default d \<and>
    thumbnail_medium (overwrite now d v) = thumbnail_medium d \<and>
    thumbnail_high (overwrite now d v) = thumbnail_high d \<and>
    channel_id (overwrite now d v) = channel_id d \<and>
    channel_title (overwrite now d v) = channel_title d \<and>
    duration (overwrite now d v) =
      (case details d of None \<Rightarrow> duration v | Some x \<Rightarrow> Some (fst x)) \<and>
    view_count (overwrite now d v) =
      (case details d of None \<Rightarrow> view_count v | Some x \<Rightarrow> Some (snd x))) \<and>
   ((\<forall>v \<in> set tbl. video_id v \<noteq> video_id d1) \<and> video_id d2 = video_id d1 \<longrightarrow>
      upsert t2 (fst (upsert t1 tbl d1)) d2 =
        (tbl @ [overwrite t2 d2 (new_video t1 (next_id tbl) d1)], False) \<and>
      filter (\<lambda>v. video_id v = video_id d1) (fst (upsert t2 (fst (upsert t1 tbl d1)) d2)) =
        [overwrite t2 d2 (new_video t1 (next_id tbl) d1)] \<and>
      created_at (overwrite t2 d2 (new_video t1 (next_id tbl) d1)) = t1) \<and>
   (store_videos now rej tbl ds n = Inr (tbl', n') \<longrightarrow> n' + length tbl = n + length tbl')"
proof -
  have absent: "(\<forall>v \<in> set tbl. video_id v \<noteq> video_id d) \<longrightarrow>
      upsert now tbl d = (tbl @ [new_video now (next_id tbl) d], True)"
    using upsert_absent by blast
  have present: "find (\<lambda>v. video_id v = video_id d) tbl = Some v \<longrightarrow>
      (\<exists>pre post. tbl = pre @ v # post \<and> (\<forall>x \<in> set pre. video_id x \<noteq> video_id d) \<and>
         upsert now tbl d = (pre @ overwrite now d v # post, False))"
    using upsert_present by blast
  have inserted: "video_id (new_video now i d) = video_id d \<and> created_at (new_video now i d) = now \<and>
    title (new_video now i d) = title d \<and> description (new_video now i d) = description d \<and>
    published_at (new_video now i d) = published_at d \<and>
    duration (new_video now i d) = map_option fst (details d) \<and>
    view_count (new_video now i d) = map_option snd (details d)"
    by (simp add: new_video_def)
  have updated: "video_id (overwrite now d v) = video_id v \<and> id_col (overwrite now d v) = id_col v \<and>
    created_at (overwrite now d v) = created_at v \<and>
    title (overwrite now d v) = title d \<and> description (overwrite now d v) = description d \<and>
    published_at (overwrite now d v) = published_at d \<and>
    thumbnail_default (overwrite now d v) = thumbnail_default d \<and>
    thumbnail_medium (overwrite now d v) = thumbnail_medium d \<and>
    thumbnail_high (overwrite now d v) = thumbnail_high d \<and>
    channel_id (overwrite now d v) = channel_id d \<and>
    channel_title (overwrite now d v) = channel_title d \<and>
    duration (overwrite now d v) =
      (case details d of None \<Rightarrow> duration v | Some x \<Rightarrow> Some (fst x)) \<and>
    view_count (overwrite now d v) =
      (case details d of None \<Rightarrow> view_count v | Some x \<Rightarrow> Some (snd x))"
    by (simp add: overwrite_def)
  have twice: "(\<forall>v \<in> set tbl. video_id v \<noteq> video_id d1) \<and> video_id d2 = video_id d1 \<longrightarrow>
      upsert t2 (fst (upsert t1 tbl d1)) d2 =
        (tbl @ [overwrite t2 d2 (new_video t1 (next_id tbl) d1)], False) \<and>
      filter (\<lambda>v. video_id v = video_id d1) (fst (upsert t2 (fst (upsert t1 tbl d1)) d2)) =
        [overwrite t2 d2 (new_video t1 (next_id tbl) d1)] \<and>
      created_at (overwrite t2 d2 (new_video t1 (next_id tbl) d1)) = t1"
  proof (intro impI)
    assume a: "(\<forall>v \<in> set tbl. video_id v \<noteq> video_id d1) \<and> video_id d2 = video_id d1"
    then have none: "\<forall>v \<in> set tbl. video_id v \<noteq> video_id d1"
      and same: "video_id d2 = video_id d1"
      by simp_all
    have tw: "upsert t2 (fst (upsert t1 tbl d1)) d2 =
        (tbl @ [overwrite t2 d2 (new_video t1 (next_id tbl) d1)], False)"
      using upsert_twice [OF none same, of t2 t1] by (simp add: prod_eq_iff)
    have "filter (\<lambda>v. video_id v = video_id d1) tbl = []"
      using none by (simp add: filter_empty_conv)
    then have "filter (\<lambda>v. video_id v = video_id d1) (fst (upsert t2 (fst (upsert t1 tbl d1)) d2)) =
        [overwrite t2 d2 (new_video t1 (next_id tbl) d1)]"
      using tw same by (simp add: overwrite_id new_video_id)
    moreover have "created_at (overwrite t2 d2 (new_video t1 (next_id tbl) d1)) = t1"
      by (simp add: overwrite_def new_video_def)
    ultimately show "upsert t2 (fst (upsert t1 tbl d1)) d2 =
        (tbl @ [overwrite t2 d2 (new_video t1 (next_id tbl) d1)], False) \<and>
      filter (\<lambda>v. video_id v = video_id d1) (fst (upsert t2 (fst (upsert t1 tbl d1)) d2)) =
        [overwrite t2 d2 (new_video t1 (next_id tbl) d1)] \<and>
      created_at (overwrite t2 d2 (new_video t1 (next_id tbl) d1)) = t1"
      using tw by simp
  qed
  have counted: "store_videos now rej tbl ds n = Inr (tbl', n') \<longrightarrow>
      n' + length tbl = n + length tbl'"
    using store_videos_count by blast
  show ?thesis
    by (rule conjI [OF absent], rule conjI [OF present], rule conjI [OF inserted],
        rule conjI [OF updated], rule conjI [OF twice], rule counted)
qed

text \<open>The first item is inserted, the second one updates its row, and the loop over both
  counts one new row.\<close>

theorem upsert_semantics_witness:
  "upsert 1000 [] item_first = ([new_video 1000 1 item_first], True) \<and>
   upsert 2000 [new_video 1000 1 item_first] item_second =
     ([overwrite 2000 item_second (new_video 1000 1 item_first)], False) \<and>
   upsert 2000 (fst (upsert 1000 [] item_first)) item_second =
     ([overwrite 2000 item_second (new_video 1000 1 item_first)], False) \<and>
   created_at (overwrite 2000 item_second (new_video 1000 1 item_first)) = 1000 \<and>
   store_videos 1000 (\<lambda>d. None) [] [item_first, item_second] 0 =
     Inr ([overwrite 1000 item_second (new_video 1000 1 item_first)], 1) \<and>
   (1::nat) + length ([] :: Video list) =
     0 + length [overwrite 1000 item_second (new_video 1000 1 item_first)]"
proof -
  have f: "find (\<lambda>v. video_id v = video_id item_second) [new_video 1000 1 item_first] =
      Some (new_video 1000 1 item_first)"
    by (simp add: new_video_def item_first_def item_second_def)
  have s: "store_videos 1000 (\<lambda>d. None) [] [item_first, item_second] 0 =
     Inr ([overwrite 1000 item_second (new_video 1000 1 item_first)], 1)"
    by (simp add: upsert_def next_id_def new_video_def item_first_def item_second_def)
  have id: "video_id item_second = video_id item_first"
    by (simp add: item_first_def item_second_def)
  have n: "next_id [] = 1" by (simp add: next_id_def)
  have 1: "upsert 1000 [] item_first = ([new_video 1000 1 item_first], True)"
    using upsert_semantics [where tbl = "[]" and d = item_first and now = 1000] n by simp
  have 2: "upsert 2000 [new_video 1000 1 item_first] item_second =
     ([overwrite 2000 item_second (new_video 1000 1 item_first)], False)"
    using upsert_semantics [where tbl = "[new_video 1000 1 item_first]" and d = item_second
        and now = 2000 and v = "new_video 1000 1 item_first"] f
    by (auto simp add: Cons_eq_append_conv)
  have 3: "upsert 2000 (fst (upsert 1000 [] item_first)) item_second =
     ([overwrite 2000 item_second (new_video 1000 1 item_first)], False) \<and>
     created_at (overwrite 2000 item_second (new_video 1000 1 item_first)) = 1000"
    using upsert_semantics [where tbl = "[]" and ?d1.0 = item_first and ?d2.0 = item_second
        and ?t1.0 = 1000 and ?t2.0 = 2000] id n
    by (simp add: 1)
  have 4: "(1::nat) + length ([] :: Video list) =
     0 + length [overwrite 1000 item_second (new_video 1000 1 item_first)]"
    using upsert_semantics [where now = 1000 and rej = "\<lambda>d. None" and tbl = "[]"
        and ds = "[item_first, item_second]" and n = 0 and n' = 1
        and tbl' = "[overwrite 1000 item_second (new_video 1000 1 item_first)]"] s
    by simp
  show ?thesis using 1 2 3 4 s by simp
qed

text \<open>
  The row of the first item holds the duration \<open>PT5M\<close> and ten views. The second item
  has the same external id and no details; inserted on its own it would give a row with no
  duration. After it is ingested, the row has the new title and still the duration and the
  view count of the first item: these two fields were not overwritten.
\<close>

theorem upsert_counterexample:
  "details item_second = None \<and>
   duration (new_video 2000 1 item_second) = None \<and>
   fst (upsert 1000 [] item_first) = [new_video 1000 1 item_first] \<and>
   duration (hd (fst (upsert 2000 (fst (upsert 1000 [] item_first)) item_second))) = Some ''PT5M'' \<and>
   view_count (hd (fst (upsert 2000 (fst (upsert 1000 [] item_first)) item_second))) = Some 10 \<and>
   title (hd (fst (upsert 2000 (fst (upsert 1000 [] item_first)) item_second))) = ''New title''"
  by (simp add: upsert_def next_id_def new_video_def overwrite_def item_first_def item_second_def)

subsection \<open>The first page\<close>





subsection \<open>The charge for the detail call\<close>

text \<open>An environment whose search returns two videos and whose detail call returns the
  details of both.\<close>

definition snippet_one :: snippet where
  "snippet_one =
     \<lparr>video_id = ''v1'', title = ''First'', description = '''', published_at = 999000,
      thumbnail_default = '''', thumbnail_medium = '''', thumbnail_high = '''',
      channel_id = ''c1'', channel_title = ''Channel''\<rparr>"

definition snippet_two :: snippet where
  "snippet_two = snippet_one\<lparr>video_id := ''v2'', title := ''Second''\<rparr>"

definition two_videos_world :: world where
  "two_videos_world = quiet_world
     \<lparr>search_list_execute := (\<lambda>key req. Inr \<lparr>sr_items = [snippet_one, snippet_two],
          sr_nextPageToken = None, sr_totalResults = 2\<rparr>),
      videos_list_execute := (\<lambda>key ids. Inr
         [\<lparr>vd_id = ''v1'', vd_duration = ''PT5M'', vd_viewCount = 10\<rparr>,
          \<lparr>vd_id = ''v2'', vd_duration = ''PT7M'', vd_viewCount = 20\<rparr>])\<rparr>"

lemmas body_eval = fetch_videos.simps fetch_body_def first_page_def should_skip_query_def
  get_cached_search_results_def get_quota_usage_def remote_fetch_def switch_api_key_def
  detail_step_def persist_def track_api_usage_def track_row_def update_search_cache_def
  commit_def upsert_def next_id_def new_video_def to_video_data_def Let_def date_def days_def
  initialize_youtube_client_def empty_db_def

text \<open>
  C5 asks for one unit per requested id for the detail call, on top of the 100 units of
  the search. The fetch below returns two videos. It issues one search call and one
  detail call for both ids, stores both videos, and leaves 101 units on the ledger row of
  its credential: the detail call was charged one unit, not two. The source line is
  \<^verbatim>\<open>self._track_api_usage(1)  # Videos.list costs 1 unit per video\<close>.
\<close>

theorem detail_charge_is_one:
  "map quota_used (api_key_usage (committed (snd
      (fetch_videos two_videos_world one_key_state ''news'' 50 None)))) = [101] \<and>
   calls (snd (fetch_videos two_videos_world one_key_state ''news'' 50 None)) =
     [SearchList ''k1'' \<lparr>req_q = ''news'', req_publishedAfter = 1000000 - 604800,
                          req_maxResults = 50, req_pageToken = None\<rparr>,
      VideosList ''k1'' [''v1'', ''v2'']] \<and>
   map_sum id stored_count (fst (fetch_videos two_videos_world one_key_state ''news'' 50 None)) =
     Inr (Some 2) \<and>
   map video_id (videos (committed (snd
      (fetch_videos two_videos_world one_key_state ''news'' 50 None)))) = [''v1'', ''v2'']"
  by (simp add: body_eval two_videos_world_def quiet_world_def one_key_state_def
      snippet_one_def snippet_two_def)

subsection \<open>Commits\<close>

































subsection \<open>Failover\<close>

















definition news_request :: search_request where
  "news_request = \<lparr>req_q = ''news'', req_publishedAfter = 1000000 - 604800,
     req_maxResults = 50, req_pageToken = None\<rparr>"

lemmas attempt_eval = fetch_body_def first_page_def should_skip_query_def
  get_cached_search_results_def get_quota_usage_def remote_fetch_def Let_def days_def
  quiet_world_def one_key_state_def ledger_state_def news_request_def



subsection \<open>The first page, without a client or with an empty entry\<close>



end
